theory Spec2Isabelle
  imports Main "HOL-Library.AList"
begin

text \<open>
  A model of \<^verbatim>\<open>src/p2pool/P2PoolManager.cpp\<close>: the manager that downloads the p2pool
  daemon, starts it detached, polls the statistics it writes, and stops it. Each method
  is a function on a state that holds the members of the class and the part of the world
  the method acts on. What the environment decides (whether a launch succeeds, what the
  network answers) is an argument of the function.
\<close>

section \<open>Strings\<close>

text \<open>
  \<^verbatim>\<open>QString::split(sep)\<close> with a one-character separator, keeping empty parts (the
  default behaviour): the empty string splits into one empty part.
\<close>

fun qsplit :: "char \<Rightarrow> string \<Rightarrow> string list" where
  "qsplit sep [] = [[]]"
| "qsplit sep (c # cs) =
     (if c = sep then [] # qsplit sep cs
      else (case qsplit sep cs of [] \<Rightarrow> [[c]] | w # ws \<Rightarrow> (c # w) # ws))"

section \<open>The install directory\<close>

text \<open>
  The files below \<^verbatim>\<open>m_p2poolPath\<close> form a tree. A directory is an association list from
  entry names to nodes; a path is the list of names leading from the install directory to
  an entry. The install directory itself exists throughout. File system calls succeed
  whenever the shape of the tree allows them: permissions and full disks are outside the
  model.
\<close>

datatype node = File string | Dir "(string \<times> node) list"

type_synonym directory = "(string \<times> node) list"
type_synonym path = "string list"

fun lookup :: "directory \<Rightarrow> path \<Rightarrow> node option" where
  "lookup d [] = Some (Dir d)"
| "lookup d (x # xs) =
     (case map_of d x of
        None \<Rightarrow> None
      | Some (File c) \<Rightarrow> (if xs = [] then Some (File c) else None)
      | Some (Dir sub) \<Rightarrow> lookup sub xs)"

text \<open>\<^verbatim>\<open>QFileInfo(p).isFile()\<close>: the path names a regular file.\<close>

definition isFile :: "directory \<Rightarrow> path \<Rightarrow> bool" where
  "isFile d p = (case lookup d p of Some (File c) \<Rightarrow> True | _ \<Rightarrow> False)"

definition isDir :: "directory \<Rightarrow> path \<Rightarrow> bool" where
  "isDir d p = (case lookup d p of Some (Dir sub) \<Rightarrow> True | _ \<Rightarrow> False)"

text \<open>\<^verbatim>\<open>QDir::exists(name)\<close>: some entry, file or directory, has that name.\<close>

definition entryExists :: "directory \<Rightarrow> path \<Rightarrow> bool" where
  "entryExists d p = (lookup d p \<noteq> None)"

definition contents :: "directory \<Rightarrow> path \<Rightarrow> string" where
  "contents d p = (case lookup d p of Some (File c) \<Rightarrow> c | _ \<Rightarrow> [])"

text \<open>
  The calls that change the tree all address a direct child of the install directory.
  \<^verbatim>\<open>QDir::removeRecursively\<close> does nothing unless the name is a directory;
  \<^verbatim>\<open>QDir::mkdir\<close> fails, leaving the tree as it is, when the name is taken.
\<close>

definition removeRecursively :: "directory \<Rightarrow> string \<Rightarrow> directory" where
  "removeRecursively d name =
     (case map_of d name of Some (Dir sub) \<Rightarrow> AList.delete name d | _ \<Rightarrow> d)"

definition mkdir :: "directory \<Rightarrow> string \<Rightarrow> directory" where
  "mkdir d name =
     (case map_of d name of None \<Rightarrow> AList.update name (Dir []) d | Some n \<Rightarrow> d)"

text \<open>
  \<^verbatim>\<open>QFile::open(WriteOnly)\<close>, \<^verbatim>\<open>write\<close>, \<^verbatim>\<open>close\<close>: creates or truncates a regular file;
  opening a directory fails and nothing is written.
\<close>

definition writeFile :: "directory \<Rightarrow> string \<Rightarrow> string \<Rightarrow> directory" where
  "writeFile d name bytes =
     (case map_of d name of
        Some (Dir sub) \<Rightarrow> d
      | _ \<Rightarrow> AList.update name (File bytes) d)"

definition removeFile :: "directory \<Rightarrow> string \<Rightarrow> directory" where
  "removeFile d name =
     (case map_of d name of Some (File c) \<Rightarrow> AList.delete name d | _ \<Rightarrow> d)"

section \<open>The manager\<close>

datatype platform = Windows | Linux | MacOSAarch64 | MacOS

datatype DownloadError =
  BinaryNotAvailable | ConnectionIssue | HashVerificationFailed | InstallationFailed

text \<open>The signals of the class, in the order they are emitted.\<close>

datatype event =
    p2poolDownloadFailure DownloadError
  | p2poolDownloadSuccess
  | p2poolStatus bool int
  | p2poolStartFailure

text \<open>What a \<^verbatim>\<open>QProcess\<close> is set up with before it is started.\<close>

record process =
  program :: string
  arguments :: "string list"
  workingDirectory :: string

text \<open>
  The members of \<^verbatim>\<open>P2PoolManager\<close>, together with the part of the world its methods act
  on: the tree below the install directory (\<open>fs\<close>), the daemons that were launched
  detached and are alive (\<open>daemons\<close>), and the signals emitted so far.
\<close>

record state =
  os :: platform
  m_p2poolPath :: string
  m_p2pool :: string
  started :: bool
  m_p2poold :: "process option"
  fs :: directory
  daemons :: "process list"
  signals :: "event list"

definition emit :: "event \<Rightarrow> state \<Rightarrow> state" where
  "emit e s = s\<lparr>signals := signals s @ [e]\<rparr>"

definition binaryName :: "platform \<Rightarrow> string" where
  "binaryName p = (if p = Windows then ''p2pool.exe'' else ''p2pool'')"

text \<open>
  The constructor. \<open>appDir\<close> is \<^verbatim>\<open>QApplication::applicationDirPath()\<close> and \<open>disk\<close> the
  tree found below the install directory (on Windows the directory is created when it is
  missing, and is empty then).
\<close>

definition P2PoolManager :: "platform \<Rightarrow> string \<Rightarrow> directory \<Rightarrow> state" where
  "P2PoolManager p appDir disk =
     (let dir = (if p = Windows then appDir @ ''/p2pool'' else appDir)
      in \<lparr>os = p, m_p2poolPath = dir, m_p2pool = dir @ ''/'' @ binaryName p,
          started = False, m_p2poold = None, fs = disk, daemons = [], signals = []\<rparr>)"

definition isInstalled :: "state \<Rightarrow> bool" where
  "isInstalled s = isFile (fs s) [binaryName (os s)]"

subsection \<open>start\<close>

text \<open>The non-empty parts of \<^verbatim>\<open>flags.split(" ")\<close>, in order.\<close>

definition tokens :: "string \<Rightarrow> string list" where
  "tokens flags = filter (\<lambda>str. str \<noteq> []) (qsplit (CHR '' '') flags)"

text \<open>
  The body of the \<^verbatim>\<open>--data-api\<close> branch that touches the disk: remove what is there when
  something is, then \<^verbatim>\<open>mkdir\<close>.
\<close>

definition recreateStatsDir :: "directory \<Rightarrow> directory" where
  "recreateStatsDir d =
     mkdir (if entryExists d [''stats''] then removeRecursively d ''stats'' else d) ''stats''"

text \<open>
  The first part of \<^verbatim>\<open>start\<close>, up to the point where the lock is taken: the argument
  list is built up by appending, and every \<^verbatim>\<open>contains\<close> looks at the list as built so far.
\<close>

definition assemble :: "string \<Rightarrow> string \<Rightarrow> string \<Rightarrow> string \<Rightarrow> state \<Rightarrow> string list \<times> state" where
  "assemble flags address chain threads s =
     (let args = tokens flags;
          args = (if ''--local-api'' \<notin> set args then args @ [''--local-api''] else args);
          (args, s) =
            (if ''--data-api'' \<notin> set args
             then (args @ [''--data-api'', m_p2poolPath s @ ''/stats/''],
                   s\<lparr>fs := recreateStatsDir (fs s)\<rparr>)
             else (args, s));
          args = (if ''--start-mining'' \<notin> set args
                  then args @ [''--start-mining'', threads] else args);
          args = (if chain = ''mini'' then args @ [''--mini''] else args);
          args = (if ''--wallet'' \<notin> set args then args @ [''--wallet'', address] else args)
      in (args, s))"

text \<open>
  The second part: a new \<^verbatim>\<open>QProcess\<close> replaces the stored one and is started detached.
  Whether the operating system manages to launch it is the input \<open>launch_ok\<close>.
\<close>

definition launch :: "string list \<Rightarrow> bool \<Rightarrow> state \<Rightarrow> bool \<times> state" where
  "launch args launch_ok s =
     (let p = \<lparr>program = m_p2pool s, arguments = args, workingDirectory = m_p2poolPath s\<rparr>;
          s = s\<lparr>m_p2poold := Some p\<rparr>;
          s = s\<lparr>started := launch_ok,
                daemons := (if launch_ok then daemons s @ [p] else daemons s)\<rparr>
      in if \<not> started s then (False, emit p2poolStartFailure s) else (True, s))"

definition start :: "string \<Rightarrow> string \<Rightarrow> string \<Rightarrow> string \<Rightarrow> bool \<Rightarrow> state \<Rightarrow> bool \<times> state" where
  "start flags address chain threads launch_ok s =
     (let (args, s) = assemble flags address chain threads s
      in launch args launch_ok s)"

subsection \<open>exit\<close>

text \<open>
  \<^verbatim>\<open>pkill p2pool\<close> (\<^verbatim>\<open>taskkill\<close> on Windows) ends every process of that name, so none
  of the launched daemons survives.
\<close>

definition exit :: "state \<Rightarrow> state" where
  "exit s =
     (if started s
      then s\<lparr>daemons := [], started := False, fs := removeRecursively (fs s) ''stats''\<rparr>
      else s)"

subsection \<open>getStatus\<close>

text \<open>
  \<^verbatim>\<open>statsOut >> data\<close> on a \<^verbatim>\<open>QTextStream\<close> reads one word: leading white space is
  skipped, and the word ends before the next character for which \<^verbatim>\<open>QChar::isSpace\<close>
  holds. The file is taken to hold one-byte characters, which the stream hands on
  unchanged; byte order marks and multi-byte encodings are outside the model.
\<close>

definition isSpace :: "char \<Rightarrow> bool" where
  "isSpace c =
     (let u = (of_char c :: nat)
      in u = 0x20 \<or> (0x09 \<le> u \<and> u \<le> 0x0D) \<or> u = 0x85 \<or> u = 0xA0)"

definition readWord :: "string \<Rightarrow> string" where
  "readWord bytes = takeWhile (\<lambda>c. \<not> isSpace c) (dropWhile isSpace bytes)"

text \<open>
  \<^verbatim>\<open>QJsonDocument::fromJson\<close>, as far as \<^verbatim>\<open>getStatus\<close> can observe it. A number is kept
  as it is written, as mantissa and decimal exponent: \<open>JNumber m e\<close> stands for the
  numeral of value \<open>m * 10 ^ e\<close>; the double that Qt stores for it is computed where it
  is read, in \<open>toInt\<close>. An object keeps its members in the order of the text. The
  parser follows Qt's: white space
  is blank, tab, line feed and carriage return; a backslash before any character other
  than the known escapes yields that character; the document must be an array or an
  object, with nothing but white space after it. Numerals follow the JSON grammar and
  must convert to a double, and Qt's limit of 1024 nested containers is left out. The
  result \<open>None\<close> is the null
  document of a text that does not parse.
\<close>

datatype json =
    JNull
  | JBool bool
  | JNumber int int
  | JString string
  | JArray "json list"
  | JObject "(string \<times> json) list"

definition eatSpace :: "string \<Rightarrow> string" where
  "eatSpace s = dropWhile (\<lambda>c. c \<in> set [CHR 0x20, CHR 0x09, CHR 0x0A, CHR 0x0D]) s"

definition isDigit :: "char \<Rightarrow> bool" where
  "isDigit c = (48 \<le> (of_char c :: nat) \<and> (of_char c :: nat) \<le> 57)"

definition digitsValue :: "string \<Rightarrow> int" where
  "digitsValue ds = foldl (\<lambda>n c. 10 * n + (of_char c - 48)) 0 ds"

definition hexValue :: "char \<Rightarrow> nat option" where
  "hexValue c =
     (let u = (of_char c :: nat)
      in if 48 \<le> u \<and> u \<le> 57 then Some (u - 48)
         else if 97 \<le> u \<and> u \<le> 102 then Some (u - 87)
         else if 65 \<le> u \<and> u \<le> 70 then Some (u - 55)
         else None)"

text \<open>The bytes of UTF-8 for a code unit below \<open>0x10000\<close>.\<close>

definition utf8 :: "nat \<Rightarrow> string" where
  "utf8 u =
     (if u < 0x80 then [char_of u]
      else if u < 0x800 then [char_of (0xC0 + u div 64), char_of (0x80 + u mod 64)]
      else [char_of (0xE0 + u div 4096), char_of (0x80 + (u div 64) mod 64),
            char_of (0x80 + u mod 64)])"

definition unescape :: "char \<Rightarrow> char" where
  "unescape e =
     (if e = CHR ''b'' then CHR 0x08
      else if e = CHR ''f'' then CHR 0x0C
      else if e = CHR ''n'' then CHR 0x0A
      else if e = CHR ''r'' then CHR 0x0D
      else if e = CHR ''t'' then CHR 0x09
      else e)"

text \<open>The text after an opening quote, up to and including the closing one.\<close>

fun parseString :: "string \<Rightarrow> (string \<times> string) option" where
  "parseString [] = None"
| "parseString [c] = (if c = CHR 0x22 then Some ([], []) else None)"
| "parseString (c # e # cs) =
     (if c = CHR 0x22 then Some ([], e # cs)
      else if c = CHR 0x5C then
        (if e = CHR ''u'' then
           (case map hexValue (take 4 cs) of
              [Some h3, Some h2, Some h1, Some h0] \<Rightarrow>
                map_option (\<lambda>(str, r). (utf8 (((h3 * 16 + h2) * 16 + h1) * 16 + h0) @ str, r))
                  (parseString (drop 4 cs))
            | _ \<Rightarrow> None)
         else map_option (\<lambda>(str, r). (unescape e # str, r)) (parseString cs))
      else map_option (\<lambda>(str, r). (c # str, r)) (parseString (e # cs)))"

text \<open>The absolute value of \<open>m * 10 ^ e\<close> as numerator and denominator.\<close>

definition fraction :: "int \<Rightarrow> int \<Rightarrow> int \<times> int" where
  "fraction m e = (if 0 \<le> e then (\<bar>m\<bar> * 10 ^ nat e, 1) else (\<bar>m\<bar>, 10 ^ nat (- e)))"

text \<open>
  \<^verbatim>\<open>QByteArray::toDouble\<close> fails on a numeral whose nearest double is infinite, and on
  one that is not zero and whose nearest double is zero. The nearest double is infinite
  from \<open>2 ^ 1024 - 2 ^ 970\<close> on, and zero up to \<open>2 ^ - 1075\<close>.
\<close>

definition toDouble_ok :: "int \<Rightarrow> int \<Rightarrow> bool" where
  "toDouble_ok m e =
     (case fraction m e of
        (num, den) \<Rightarrow>
          num = 0 \<or> (den < num * 2 ^ 1075 \<and> num < (2 ^ 54 - 1) * 2 ^ 970 * den))"

definition parseNumber :: "string \<Rightarrow> (json \<times> string) option" where
  "parseNumber s =
     (let neg = (take 1 s = ''-'');
          s1 = (if neg then drop 1 s else s);
          ip = (if take 1 s1 = ''0'' then ''0'' else takeWhile isDigit s1);
          s2 = drop (length ip) s1;
          frac = (take 1 s2 = ''.'');
          fp = (if frac then takeWhile isDigit (drop 1 s2) else []);
          s3 = (if frac then dropWhile isDigit (drop 1 s2) else s2);
          ex = (take 1 s3 = ''e'' \<or> take 1 s3 = ''E'');
          eneg = (ex \<and> take 1 (drop 1 s3) = ''-'');
          s4 = (if ex then (if take 1 (drop 1 s3) = ''-'' \<or> take 1 (drop 1 s3) = ''+''
                            then drop 2 s3 else drop 1 s3)
                else s3);
          ep = (if ex then takeWhile isDigit s4 else []);
          s5 = (if ex then dropWhile isDigit s4 else s4);
          m = (if neg then - digitsValue (ip @ fp) else digitsValue (ip @ fp));
          e = (if eneg then - digitsValue ep else digitsValue ep) - int (length fp)
      in if ip = [] \<or> (frac \<and> fp = []) \<or> (ex \<and> ep = []) \<or> \<not> toDouble_ok m e then None
         else Some (JNumber m e, s5))"

text \<open>
  The recursive descent over values, array elements and object members. The first
  argument bounds the depth of the calls. \<open>fromJson\<close> starts it above twice the length
  of the text, which is more than any text needs: a larger bound gives the same document
  (lemma \<open>fromJson_bound\<close> below).
\<close>

fun parseValue :: "nat \<Rightarrow> string \<Rightarrow> (json \<times> string) option"
  and parseElements :: "nat \<Rightarrow> string \<Rightarrow> (json list \<times> string) option"
  and parseMembers :: "nat \<Rightarrow> string \<Rightarrow> ((string \<times> json) list \<times> string) option"
where
  "parseValue 0 s = None"
| "parseValue (Suc n) [] = None"
| "parseValue (Suc n) (c # cs) =
     (if c = CHR ''n'' then (if take 3 cs = ''ull'' then Some (JNull, drop 3 cs) else None)
      else if c = CHR ''t'' then
        (if take 3 cs = ''rue'' then Some (JBool True, drop 3 cs) else None)
      else if c = CHR ''f'' then
        (if take 4 cs = ''alse'' then Some (JBool False, drop 4 cs) else None)
      else if c = CHR 0x22 then map_option (\<lambda>(str, r). (JString str, r)) (parseString cs)
      else if c = CHR ''['' then
        (if take 1 (eatSpace cs) = '']'' then Some (JArray [], drop 1 (eatSpace cs))
         else map_option (\<lambda>(vs, r). (JArray vs, r)) (parseElements n (eatSpace cs)))
      else if c = CHR ''{'' then
        (if take 1 (eatSpace cs) = ''}'' then Some (JObject [], drop 1 (eatSpace cs))
         else map_option (\<lambda>(ms, r). (JObject ms, r)) (parseMembers n (eatSpace cs)))
      else parseNumber (c # cs))"
| "parseElements 0 s = None"
| "parseElements (Suc n) s =
     (case parseValue n s of
        None \<Rightarrow> None
      | Some (v, r) \<Rightarrow>
          (if take 1 (eatSpace r) = '']'' then Some ([v], drop 1 (eatSpace r))
           else if take 1 (eatSpace r) = '','' then
             map_option (\<lambda>(vs, r'). (v # vs, r'))
               (parseElements n (eatSpace (drop 1 (eatSpace r))))
           else None))"
| "parseMembers 0 s = None"
| "parseMembers (Suc n) s =
     (if take 1 s \<noteq> [CHR 0x22] then None
      else (case parseString (drop 1 s) of
              None \<Rightarrow> None
            | Some (k, r) \<Rightarrow>
                (if take 1 (eatSpace r) \<noteq> '':'' then None
                 else (case parseValue n (eatSpace (drop 1 (eatSpace r))) of
                         None \<Rightarrow> None
                       | Some (v, r1) \<Rightarrow>
                           (if take 1 (eatSpace r1) = ''}''
                            then Some ([(k, v)], drop 1 (eatSpace r1))
                            else if take 1 (eatSpace r1) = '','' then
                              map_option (\<lambda>(ms, r'). ((k, v) # ms, r'))
                                (parseMembers n (eatSpace (drop 1 (eatSpace r1))))
                            else None)))))"

definition parseDocument :: "nat \<Rightarrow> string \<Rightarrow> json option" where
  "parseDocument n s =
     (let s0 = eatSpace s
      in if take 1 s0 = ''['' \<or> take 1 s0 = ''{'' then
           (case parseValue n s0 of
              None \<Rightarrow> None
            | Some (v, r) \<Rightarrow> (if eatSpace r = [] then Some v else None))
         else None)"

definition fromJson :: "string \<Rightarrow> json option" where
  "fromJson s = parseDocument (2 * length s + 2) s"

text \<open>
  \<^verbatim>\<open>QJsonDocument::object()\<close>: the members of the document when it is an object, none
  otherwise. \<^verbatim>\<open>QJsonObject::value(key)\<close>: the member of that name, the last one in the
  text when the name is repeated, or the undefined value \<open>None\<close>.
\<close>

definition json_object :: "json option \<Rightarrow> (string \<times> json) list" where
  "json_object doc = (case doc of Some (JObject ms) \<Rightarrow> ms | _ \<Rightarrow> [])"

definition json_value :: "(string \<times> json) list \<Rightarrow> string \<Rightarrow> json option" where
  "json_value ms key = map_of (rev ms) key"

text \<open>
  \<^verbatim>\<open>QJsonValue::toInt()\<close>: the number when it is whole and fits a 32-bit \<^verbatim>\<open>int\<close>, the
  default \<open>0\<close> for every other value. The number is the double nearest to the numeral,
  ties going to the even mantissa. A numeral below one half has a double below one,
  which is zero or not whole, and the result is \<open>0\<close> in both cases. From one half on the
  double has a mantissa \<open>mant\<close> of 53 bits and the value \<open>mant / 2 ^ sh\<close>, where \<open>sh\<close> is
  53 less the number of powers of two, from \<open>2 ^ 0\<close>, that do not exceed the numeral (at
  \<open>2 ^ 32\<close> and above the result is out of range whatever the mantissa).
\<close>

definition toInt :: "json option \<Rightarrow> int" where
  "toInt v =
     (case v of
        Some (JNumber m e) \<Rightarrow>
          (case fraction m e of
             (num, den) \<Rightarrow>
               (let sh = 53 - length (filter (\<lambda>i. 2 ^ i * den \<le> num) [0..<32]);
                    fl = (num * 2 ^ sh) div den;
                    rm = (num * 2 ^ sh) mod den;
                    mant = (if 2 * rm < den \<or> (2 * rm = den \<and> even fl) then fl else fl + 1);
                    i = (if m < 0 then - (mant div 2 ^ sh) else mant div 2 ^ sh)
                in if 2 * num < den \<or> mant mod 2 ^ sh \<noteq> 0 then 0
                   else if - (2 ^ 31) \<le> i \<and> i < 2 ^ 31 then i
                   else 0))
      | _ \<Rightarrow> 0)"

definition getStatus :: "state \<Rightarrow> state" where
  "getStatus s =
     (let statsPath = [''stats'', ''local'', ''miner'']
      in if \<not> isFile (fs s) statsPath \<or> \<not> started s
         then emit (p2poolStatus (started s) 0) s
         else (let data = readWord (contents (fs s) statsPath);
                   doc = fromJson data;
                   jsonObj = json_object doc;
                   hashrate = toInt (json_value jsonObj ''current_hashrate'')
               in emit (p2poolStatus True hashrate) s))"

subsection \<open>download\<close>

text \<open>The release selected at compile time: URL, archive name below the install
  directory, and expected digest.\<close>

record release =
  url :: string
  fileName :: string
  validHash :: string

definition release_of :: "platform \<Rightarrow> release" where
  "release_of p =
     (case p of
        Windows \<Rightarrow>
          \<lparr>url = ''https://github.com/SChernykh/p2pool/releases/download/v4.9/p2pool-v4.9-windows-x64.zip'',
           fileName = ''p2pool-v4.9-windows-x64.zip'',
           validHash = ''d109b6dcb01907695a8728063a1495a0d339cc7d03bbc5ad08262d0b876fab2d''\<rparr>
      | Linux \<Rightarrow>
          \<lparr>url = ''https://github.com/SChernykh/p2pool/releases/download/v4.9/p2pool-v4.9-linux-x64.tar.gz'',
           fileName = ''p2pool-v4.9-linux-x64.tar.gz'',
           validHash = ''db33e4c1cd1a48008f1c52b0d0eb1a2d6a2bae6fe5191277c94dbbf5b098907a''\<rparr>
      | MacOSAarch64 \<Rightarrow>
          \<lparr>url = ''https://github.com/SChernykh/p2pool/releases/download/v4.9/p2pool-v4.9-macos-aarch64.tar.gz'',
           fileName = ''p2pool-v4.9-macos-aarch64.tar.gz'',
           validHash = ''6116cc25e34d1840c3f0e5697b444049cd936deee072dfd7e67d83577c1dc546''\<rparr>
      | MacOS \<Rightarrow>
          \<lparr>url = ''https://github.com/SChernykh/p2pool/releases/download/v4.9/p2pool-v4.9-macos-x64.tar.gz'',
           fileName = ''p2pool-v4.9-macos-x64.tar.gz'',
           validHash = ''a275d4c2a66481833926b181e3e910126d9e67169d7a31c905d6bb39e80f1e8f''\<rparr>)"

text \<open>
  What \<^verbatim>\<open>download\<close> calls and this file does not define is a parameter: the digest
  \<^verbatim>\<open>QCryptographicHash::hash(data, Sha256).toHex()\<close>, the parts of a \<^verbatim>\<open>QUrl\<close>
  (\<^verbatim>\<open>host()\<close>, \<^verbatim>\<open>path()\<close>, \<^verbatim>\<open>query(FullyEncoded)\<close>), the effect of
  \<^verbatim>\<open>tar -xzf archive --strip=1 -C dir\<close> on the install directory, given the bytes of the
  archive, and the string \<^verbatim>\<open>randomUserAgent()\<close> returns.
\<close>

record library =
  sha256_hex :: "string \<Rightarrow> string"
  url_host :: "string \<Rightarrow> string"
  url_path :: "string \<Rightarrow> string"
  url_query :: "string \<Rightarrow> string"
  tar_xzf :: "string \<Rightarrow> directory \<Rightarrow> directory"
  randomUserAgent :: string

record http_response_info =
  m_response_code :: int
  m_etc_fields :: "(string \<times> string) list"
  m_body :: string

text \<open>A GET as it leaves the client; port and timeout are the same for all of them.\<close>

record http_request =
  host :: string
  uri :: string
  user_agent :: string

text \<open>
  The client: the server set by \<^verbatim>\<open>set_server\<close>, the requests sent so far, and what the
  network is going to answer, one entry for each request to come. \<open>None\<close> is a request
  that fails at the transport level (\<^verbatim>\<open>invoke_get\<close> returns false), and so is every
  request after the last entry.
\<close>

record http_simple_client =
  server :: string
  replies :: "http_response_info option list"
  sent :: "http_request list"

definition next_reply :: "http_response_info option list \<Rightarrow> http_response_info option" where
  "next_reply rs = (case rs of [] \<Rightarrow> None | r # rest \<Rightarrow> r)"

definition invoke_get ::
  "string \<Rightarrow> string \<Rightarrow> http_simple_client \<Rightarrow> http_response_info option \<times> http_simple_client" where
  "invoke_get path ua c =
     (next_reply (replies c),
      c\<lparr>replies := tl (replies c),
        sent := sent c @ [\<lparr>host = server c, uri = path, user_agent = ua\<rparr>]\<rparr>)"

text \<open>\<^verbatim>\<open>success && response->m_response_code == code\<close>\<close>

definition has_code :: "http_response_info option \<Rightarrow> int \<Rightarrow> bool" where
  "has_code r code = (case r of None \<Rightarrow> False | Some resp \<Rightarrow> m_response_code resp = code)"

text \<open>
  The loop over the header fields of the first response: each field named \<^verbatim>\<open>Location\<close>
  re-targets the client and sends a GET, whose outcome replaces the current one.
\<close>

fun follow ::
  "library \<Rightarrow> string \<Rightarrow> (string \<times> string) list \<Rightarrow>
   http_response_info option \<times> http_simple_client \<Rightarrow>
   http_response_info option \<times> http_simple_client" where
  "follow lib ua [] rc = rc"
| "follow lib ua ((name, v) # hs) (r, c) =
     (if name = ''Location''
      then follow lib ua hs
             (invoke_get (url_path lib v @ ''?'' @ url_query lib v) ua
                (c\<lparr>server := url_host lib v\<rparr>))
      else follow lib ua hs (r, c))"

text \<open>
  The requests of one attempt. The result is whether the attempt ended at the
  \<^verbatim>\<open>404\<close> test, the response in hand otherwise (\<open>None\<close> when the last request failed),
  and the client.
\<close>

definition fetch ::
  "library \<Rightarrow> release \<Rightarrow> http_response_info option list \<Rightarrow>
   bool \<times> http_response_info option \<times> http_simple_client" where
  "fetch lib rel net =
     (let ua = randomUserAgent lib;
          c = \<lparr>server = url_host lib (url rel), replies = net, sent = []\<rparr>;
          (r, c) = invoke_get (url_path lib (url rel)) ua c
      in if has_code r 404 then (True, r, c)
         else if has_code r 302 then
           (case r of
              None \<Rightarrow> (False, r, c)
            | Some resp \<Rightarrow> (False, follow lib ua (m_etc_fields resp) (r, c)))
         else (False, r, c))"

text \<open>Write the archive, unpack it, remove it, and look for the binary.\<close>

definition install :: "library \<Rightarrow> release \<Rightarrow> string \<Rightarrow> state \<Rightarrow> state" where
  "install lib rel data s =
     (let d = writeFile (fs s) (fileName rel) data;
          d = (if isFile d [fileName rel] then tar_xzf lib (contents d [fileName rel]) d else d);
          d = removeFile d (fileName rel);
          s = s\<lparr>fs := d\<rparr>
      in if isInstalled s then emit p2poolDownloadSuccess s
         else emit (p2poolDownloadFailure InstallationFailed) s)"

text \<open>
  The task \<^verbatim>\<open>download\<close> hands to the scheduler, run to its end. \<open>net\<close> is what the
  network answers; the result is the new state and the requests that were sent.
\<close>

definition download ::
  "library \<Rightarrow> http_response_info option list \<Rightarrow> state \<Rightarrow> state \<times> http_request list" where
  "download lib net s =
     (let rel = release_of (os s);
          (notFound, r, c) = fetch lib rel net
      in if notFound then (emit (p2poolDownloadFailure BinaryNotAvailable) s, sent c)
         else (case r of
                 None \<Rightarrow> (emit (p2poolDownloadFailure ConnectionIssue) s, sent c)
               | Some resp \<Rightarrow>
                   (if sha256_hex lib (m_body resp) \<noteq> validHash rel
                    then (emit (p2poolDownloadFailure HashVerificationFailed) s, sent c)
                    else (install lib rel (m_body resp) s, sent c))))"

text \<open>The two requests of an attempt that is redirected once, to the address \<open>v\<close>.\<close>

definition first_get :: "library \<Rightarrow> release \<Rightarrow> http_request" where
  "first_get lib rel =
     \<lparr>host = url_host lib (url rel), uri = url_path lib (url rel),
      user_agent = randomUserAgent lib\<rparr>"

definition redirected_get :: "library \<Rightarrow> string \<Rightarrow> http_request" where
  "redirected_get lib v =
     \<lparr>host = url_host lib v, uri = url_path lib v @ ''?'' @ url_query lib v,
      user_agent = randomUserAgent lib\<rparr>"

section \<open>Sequences of calls\<close>

text \<open>A caller on one thread: calls to \<^verbatim>\<open>start\<close> (with the outcome of the launch) and to
  \<^verbatim>\<open>exit\<close>, one after the other.\<close>

datatype call = Start string string string string bool | Exit

fun do_call :: "call \<Rightarrow> state \<Rightarrow> state" where
  "do_call (Start flags address chain threads launch_ok) s =
     snd (start flags address chain threads launch_ok s)"
| "do_call Exit s = exit s"

fun run_calls :: "call list \<Rightarrow> state \<Rightarrow> state" where
  "run_calls [] s = s"
| "run_calls (c # cs) s = run_calls cs (do_call c s)"

text \<open>A call of \<^verbatim>\<open>start\<close> that creates the stats directory and gets its daemon running.\<close>

fun plain_call :: "call \<Rightarrow> bool" where
  "plain_call (Start flags address chain threads launch_ok) =
     (''--data-api'' \<notin> set (tokens flags) \<and> launch_ok)"
| "plain_call Exit = True"

text \<open>
  The state in which \<open>started\<close> and the stats directory agree, and no regular file
  stands where the directory belongs.
\<close>

definition consistent :: "state \<Rightarrow> bool" where
  "consistent s =
     ((started s \<longleftrightarrow> isDir (fs s) [''stats'']) \<and> \<not> isFile (fs s) [''stats''])"

section \<open>Calls on two threads\<close>

text \<open>
  \<^verbatim>\<open>start\<close> and \<^verbatim>\<open>exit\<close> cut into the steps between which another thread may run. The
  steps are no finer than the statements of the source, and the whole of the argument
  assembly, with the removal and creation of the stats directory, counts as one step.
  \<^verbatim>\<open>QMutexLocker locker(&m_p2poolMutex)\<close> is the step \<open>Acquire\<close>, which cannot be taken
  while the mutex is held, and its destructor at either \<^verbatim>\<open>return\<close> is \<open>Release\<close>.
  \<^verbatim>\<open>exit\<close> has no such statement.

  In \<^verbatim>\<open>start\<close>: \<open>Assemble\<close> is lines 157 to 191, \<open>Acquire\<close> line 196, \<open>ResetProcess\<close>
  lines 198 to 203, \<open>StartDetached\<close> line 206, \<open>EmitIfNotStarted\<close> lines 208 to 212. In
  \<^verbatim>\<open>exit\<close>: \<open>TestStarted\<close> is line 220, \<open>Kill\<close> lines 221 to 225, \<open>ClearStarted\<close> line
  226, \<open>RemoveStats\<close> lines 227 to 229. The argument list handed to the new process is
  local to the call; it depends on the state through \<open>m_p2poolPath\<close> alone, which never
  changes, so it is the one computed in the state the call starts from.
\<close>

datatype instr =
    Assemble string string string string
  | Acquire
  | ResetProcess "string list"
  | StartDetached bool
  | EmitIfNotStarted
  | Release
  | TestStarted
  | Kill
  | ClearStarted
  | RemoveStats

definition start_steps :: "string \<Rightarrow> string \<Rightarrow> string \<Rightarrow> string \<Rightarrow> bool \<Rightarrow> state \<Rightarrow> instr list" where
  "start_steps flags address chain threads launch_ok s =
     [Assemble flags address chain threads, Acquire,
      ResetProcess (fst (assemble flags address chain threads s)),
      StartDetached launch_ok, EmitIfNotStarted, Release]"

definition exit_steps :: "instr list" where
  "exit_steps = [TestStarted, Kill, ClearStarted, RemoveStats]"

text \<open>One step on the shared state and the mutex; \<open>None\<close> when the step has to wait.\<close>

fun exec :: "instr \<Rightarrow> state \<times> bool \<Rightarrow> (state \<times> bool) option" where
  "exec (Assemble flags address chain threads) (s, held) =
     Some (snd (assemble flags address chain threads s), held)"
| "exec Acquire (s, held) = (if held then None else Some (s, True))"
| "exec (ResetProcess args) (s, held) =
     Some (s\<lparr>m_p2poold :=
              Some \<lparr>program = m_p2pool s, arguments = args,
                    workingDirectory = m_p2poolPath s\<rparr>\<rparr>, held)"
| "exec (StartDetached launch_ok) (s, held) =
     Some (s\<lparr>started := launch_ok,
             daemons := (case m_p2poold s of
                           Some p \<Rightarrow> (if launch_ok then daemons s @ [p] else daemons s)
                         | None \<Rightarrow> daemons s)\<rparr>, held)"
| "exec EmitIfNotStarted (s, held) =
     Some (if \<not> started s then emit p2poolStartFailure s else s, held)"
| "exec Release (s, held) = Some (s, False)"
| "exec TestStarted (s, held) = Some (s, held)"
| "exec Kill (s, held) = Some (s\<lparr>daemons := []\<rparr>, held)"
| "exec ClearStarted (s, held) = Some (s\<lparr>started := False\<rparr>, held)"
| "exec RemoveStats (s, held) = Some (s\<lparr>fs := removeRecursively (fs s) ''stats''\<rparr>, held)"

text \<open>The next step of a thread: \<open>TestStarted\<close> ends the thread when \<open>started\<close> is
  false, every other step leaves the rest of the thread to run.\<close>

fun step :: "instr list \<Rightarrow> state \<times> bool \<Rightarrow> (instr list \<times> state \<times> bool) option" where
  "step [] c = None"
| "step (i # rest) c =
     (case exec i c of
        None \<Rightarrow> None
      | Some c' \<Rightarrow> Some (if i = TestStarted \<and> \<not> started (fst c) then [] else rest, c'))"

text \<open>A schedule names, step by step, the thread that runs next: \<open>False\<close> the first
  thread, \<open>True\<close> the second. It is \<open>None\<close> when it picks a thread that cannot run.\<close>

fun run ::
  "bool list \<Rightarrow> instr list \<times> instr list \<times> state \<times> bool \<Rightarrow>
   (instr list \<times> instr list \<times> state \<times> bool) option" where
  "run [] k = Some k"
| "run (t # sched) (a, b, c) =
     (case step (if t then b else a) c of
        None \<Rightarrow> None
      | Some (rest, c') \<Rightarrow> run sched (if t then (a, rest, c') else (rest, b, c')))"

section \<open>The argument list in the specification's words\<close>

text \<open>
  The list the specification describes: the tokens of \<open>flags\<close>, then each default whose
  flag is not among those tokens.
\<close>

definition arguments_by_tokens :: "string \<Rightarrow> string \<Rightarrow> string \<Rightarrow> string \<Rightarrow> string \<Rightarrow> string list" where
  "arguments_by_tokens dir flags address chain threads =
     (let ts = tokens flags
      in ts
         @ (if ''--local-api'' \<in> set ts then [] else [''--local-api''])
         @ (if ''--data-api'' \<in> set ts then [] else [''--data-api'', dir @ ''/stats/''])
         @ (if ''--start-mining'' \<in> set ts then [] else [''--start-mining'', threads])
         @ (if chain = ''mini'' then [''--mini''] else [])
         @ (if ''--wallet'' \<in> set ts then [] else [''--wallet'', address]))"

section \<open>Worked inputs\<close>

text \<open>An installation on Linux, with the daemon's binary in place and nothing else.\<close>

definition installed :: state where
  "installed = P2PoolManager Linux ''/opt/monero-gui'' [(''p2pool'', File ''ELF'')]"

text \<open>The same installation with a regular file where the stats directory belongs.\<close>

definition blocked :: state where
  "blocked =
     P2PoolManager Linux ''/opt/monero-gui''
       [(''p2pool'', File ''ELF''), (''stats'', File ''notes'')]"

text \<open>The state after a first, successful \<^verbatim>\<open>start\<close> with default arguments.\<close>

definition running :: state where
  "running = snd (start [] ''abc'' ''mini'' ''4'' True installed)"

text \<open>The same with the daemon marked as started and a stats file of the given text.\<close>

definition polling :: "string \<Rightarrow> state" where
  "polling text =
     (P2PoolManager Linux ''/opt/monero-gui''
        [(''p2pool'', File ''ELF''),
         (''stats'', Dir [(''local'', Dir [(''miner'', File text)])])])
     \<lparr>started := True\<rparr>"

text \<open>
  A library for the worked inputs. Its digest is SHA-256 on the two bodies that occur,
  the empty one and \<open>abc\<close>; its URLs have the form \<^verbatim>\<open>scheme://host/path?query\<close>; its
  archives unpack to the daemon's binary alone.
\<close>

definition after_scheme :: "string \<Rightarrow> string" where
  "after_scheme u = drop 3 (dropWhile (\<lambda>c. c \<noteq> CHR '':'') u)"

definition example_library :: library where
  "example_library =
     \<lparr>sha256_hex = (\<lambda>data.
          if data = [] then ''e3b0c44298fc1c149afbf4c8996fb92427ae41e4649b934ca495991b7852b855''
          else if data = ''abc'' then ''ba7816bf8f01cfea414140de5dae2223b00361a396177a9cb410ff61f20015ad''
          else []),
       url_host = (\<lambda>u. takeWhile (\<lambda>c. c \<noteq> CHR ''/'' \<and> c \<noteq> CHR ''?'') (after_scheme u)),
       url_path = (\<lambda>u. takeWhile (\<lambda>c. c \<noteq> CHR ''?'') (dropWhile (\<lambda>c. c \<noteq> CHR ''/'') (after_scheme u))),
       url_query = (\<lambda>u. drop 1 (dropWhile (\<lambda>c. c \<noteq> CHR ''?'') (after_scheme u))),
       tar_xzf = (\<lambda>data d. writeFile d ''p2pool'' data),
       randomUserAgent = ''Mozilla/5.0''\<rparr>"

text \<open>A redirect without a \<^verbatim>\<open>Location\<close> field, one with such a field, one with two, and
  a plain answer.\<close>

definition bare_redirect :: http_response_info where
  "bare_redirect = \<lparr>m_response_code = 302, m_etc_fields = [(''Server'', ''GitHub.com'')], m_body = []\<rparr>"

definition redirect :: http_response_info where
  "redirect =
     \<lparr>m_response_code = 302,
      m_etc_fields = [(''Server'', ''GitHub.com''),
                      (''Location'', ''https://objects.githubusercontent.com/release/42?sig=a%20b'')],
      m_body = []\<rparr>"

definition double_redirect :: http_response_info where
  "double_redirect =
     \<lparr>m_response_code = 302,
      m_etc_fields = [(''Location'', ''https://mirror-a.example.org/p2pool?x=1''),
                      (''Location'', ''https://mirror-b.example.org/p2pool?x=2'')],
      m_body = []\<rparr>"

definition answer :: "string \<Rightarrow> http_response_info" where
  "answer body = \<lparr>m_response_code = 200, m_etc_fields = [], m_body = body\<rparr>"

section \<open>Properties\<close>

subsection \<open>Auxiliary facts\<close>

lemma lookup_single: "lookup d [x] = map_of d x"
  by (simp split: option.splits node.splits)

lemma recreateStatsDir_fresh:
  "\<not> isFile d [''stats''] \<Longrightarrow> lookup (recreateStatsDir d) [''stats''] = Some (Dir [])"
  by (cases "map_of d ''stats''")
     (auto simp: recreateStatsDir_def mkdir_def removeRecursively_def entryExists_def isFile_def
        lookup_single update_conv' delete_conv' simp del: lookup.simps split: node.splits)

lemma stats_name_not_flag:
  "dir @ ''/stats/'' \<noteq> ''--start-mining''" "dir @ ''/stats/'' \<noteq> ''--wallet''"
proof -
  have "last (dir @ ''/stats/'') = CHR ''/''" by simp
  then show "dir @ ''/stats/'' \<noteq> ''--start-mining''" "dir @ ''/stats/'' \<noteq> ''--wallet''"
    by auto
qed

text \<open>
  What the checks of \<^verbatim>\<open>start\<close> amount to. Three of them cannot tell the list built so
  far from the tokens of \<open>flags\<close>; the one for \<^verbatim>\<open>--wallet\<close> can, because the thread count
  has been appended by then.
\<close>

lemma assemble_characterised:
  "assemble flags address chain threads s =
     (tokens flags
        @ (if ''--local-api'' \<in> set (tokens flags) then [] else [''--local-api''])
        @ (if ''--data-api'' \<in> set (tokens flags) then []
           else [''--data-api'', m_p2poolPath s @ ''/stats/''])
        @ (if ''--start-mining'' \<in> set (tokens flags) then [] else [''--start-mining'', threads])
        @ (if chain = ''mini'' then [''--mini''] else [])
        @ (if ''--wallet'' \<in> set (tokens flags)
              \<or> (''--start-mining'' \<notin> set (tokens flags) \<and> threads = ''--wallet'')
           then [] else [''--wallet'', address]),
      if ''--data-api'' \<in> set (tokens flags) then s else s\<lparr>fs := recreateStatsDir (fs s)\<rparr>)"
  using stats_name_not_flag[of "m_p2poolPath s"]
  by (simp add: assemble_def Let_def)

lemma assemble_state:
  "snd (assemble flags address chain threads s) =
     (if ''--data-api'' \<in> set (tokens flags) then s else s\<lparr>fs := recreateStatsDir (fs s)\<rparr>)"
  by (simp add: assemble_characterised)

lemma start_unfold:
  "start flags address chain threads launch_ok s =
     launch (fst (assemble flags address chain threads s)) launch_ok
       (snd (assemble flags address chain threads s))"
  by (simp add: start_def split: prod.split)

lemma tokens_empty: "tokens [] = []"
  by (simp add: tokens_def)

lemma installed_simps:
  "m_p2poolPath installed = ''/opt/monero-gui''" "m_p2pool installed = ''/opt/monero-gui/p2pool''"
  "signals installed = []" "\<not> started installed" "fs installed = [(''p2pool'', File ''ELF'')]"
  "m_p2poold installed = None" "os installed = Linux" "daemons installed = []"
  by (simp_all add: installed_def P2PoolManager_def binaryName_def)

subsection \<open>The bound of the parser\<close>

text \<open>
  A parse that succeeds within some bound succeeds within every larger one, consumes at
  least one character, and needs no more than twice the number of characters it
  consumes.
\<close>

lemma parse_Suc:
  "(\<forall>s r. parseValue n s = Some r \<longrightarrow> parseValue (Suc n) s = Some r)
   \<and> (\<forall>s r. parseElements n s = Some r \<longrightarrow> parseElements (Suc n) s = Some r)
   \<and> (\<forall>s r. parseMembers n s = Some r \<longrightarrow> parseMembers (Suc n) s = Some r)"
proof (induction n)
  case 0
  then show ?case by simp
next
  case (Suc n)
  then have v: "\<And>s r. parseValue n s = Some r \<Longrightarrow> parseValue (Suc n) s = Some r"
    and e: "\<And>s r. parseElements n s = Some r \<Longrightarrow> parseElements (Suc n) s = Some r"
    and m: "\<And>s r. parseMembers n s = Some r \<Longrightarrow> parseMembers (Suc n) s = Some r"
    by blast+
  have "parseValue (Suc (Suc n)) s = Some r" if "parseValue (Suc n) s = Some r" for s r
  proof (cases s)
    case Nil
    with that show ?thesis by simp
  next
    case (Cons c cs)
    with that show ?thesis
      using e[of "eatSpace cs"] m[of "eatSpace cs"]
      by (auto simp del: parseElements.simps parseMembers.simps split: if_splits)
  qed
  moreover have "parseElements (Suc (Suc n)) s = Some r" if "parseElements (Suc n) s = Some r" for s r
  proof -
    from that obtain v r1 where p: "parseValue n s = Some (v, r1)"
      by (auto split: option.splits)
    show ?thesis
      using that v[OF p] e[of "eatSpace (drop 1 (eatSpace r1))"] p
      by (auto simp del: parseValue.simps split: if_splits)
  qed
  moreover have "parseMembers (Suc (Suc n)) s = Some r" if "parseMembers (Suc n) s = Some r" for s r
  proof -
    from that obtain k r0 where k: "parseString (drop 1 s) = Some (k, r0)"
      by (auto split: option.splits if_splits)
    from that k obtain v r1 where p: "parseValue n (eatSpace (drop 1 (eatSpace r0))) = Some (v, r1)"
      by (auto split: option.splits if_splits)
    show ?thesis
      using that v[OF p] m[of "eatSpace (drop 1 (eatSpace r1))"] p k
      by (auto simp del: parseValue.simps split: if_splits)
  qed
  ultimately show ?case by blast
qed

lemma parseValue_mono: "parseValue n s = Some r \<Longrightarrow> n \<le> m \<Longrightarrow> parseValue m s = Some r"
  by (induction m) (auto simp: le_Suc_eq parse_Suc simp del: parseValue.simps)

lemma parseElements_mono: "parseElements n s = Some r \<Longrightarrow> n \<le> m \<Longrightarrow> parseElements m s = Some r"
  by (induction m) (auto simp: le_Suc_eq parse_Suc simp del: parseElements.simps)

lemma parseMembers_mono: "parseMembers n s = Some r \<Longrightarrow> n \<le> m \<Longrightarrow> parseMembers m s = Some r"
  by (induction m) (auto simp: le_Suc_eq parse_Suc simp del: parseMembers.simps)

lemma length_eatSpace: "length (eatSpace s) \<le> length s"
  by (simp add: eatSpace_def length_dropWhile_le)

lemma length_parseString: "parseString s = Some (str, r) \<Longrightarrow> length r < length s"
proof (induction s arbitrary: str r rule: parseString.induct)
  case 1
  then show ?case by simp
next
  case (2 c)
  then show ?case by (simp split: if_splits)
next
  case (3 c e cs)
  note u = "3.prems"[unfolded parseString.simps(3)]
  show ?case
  proof (cases "c = CHR 0x22")
    case True
    with u show ?thesis by simp
  next
    case q: False
    show ?thesis
    proof (cases "c = CHR 0x5C")
      case False
      with q u obtain str' where "parseString (e # cs) = Some (str', r)"
        by (auto simp del: parseString.simps)
      from "3.IH"(3)[OF q False this] show ?thesis by simp
    next
      case b: True
      show ?thesis
      proof (cases "e = CHR ''u''")
        case False
        with q b u obtain str' where "parseString cs = Some (str', r)"
          by (auto simp del: parseString.simps)
        from "3.IH"(2)[OF q b False this] show ?thesis by simp
      next
        case True
        from q b True u have "\<exists>str'. parseString (drop 4 cs) = Some (str', r)"
          by (auto simp del: parseString.simps split: list.splits option.splits)
        then obtain str' where p: "parseString (drop 4 cs) = Some (str', r)" by blast
        from q b True u have "\<exists>h3 h2 h1 h0. map hexValue (take 4 cs) = [Some h3, Some h2, Some h1, Some h0]"
          by (auto simp del: parseString.simps split: list.splits option.splits)
        then obtain h3 h2 h1 h0 where h: "map hexValue (take 4 cs) = [Some h3, Some h2, Some h1, Some h0]"
          by (elim exE)
        have "length r < length (drop 4 cs)"
          by (rule "3.IH"(1)[OF q b True h refl refl refl refl refl refl refl refl p])
        then show ?thesis by simp
      qed
    qed
  qed
qed


lemma length_parseNumber: "parseNumber s = Some (j, r) \<Longrightarrow> length r < length s"
proof -
  assume a: "parseNumber s = Some (j, r)"
  define s1 where "s1 = (if take 1 s = ''-'' then drop 1 s else s)"
  define ip where "ip = (if take 1 s1 = ''0'' then ''0'' else takeWhile isDigit s1)"
  define s2 where "s2 = drop (length ip) s1"
  define s3 where "s3 = (if take 1 s2 = ''.'' then dropWhile isDigit (drop 1 s2) else s2)"
  define s4 where "s4 = (if take 1 s3 = ''e'' \<or> take 1 s3 = ''E''
     then (if take 1 (drop 1 s3) = ''-'' \<or> take 1 (drop 1 s3) = ''+'' then drop 2 s3 else drop 1 s3)
     else s3)"
  define s5 where "s5 = (if take 1 s3 = ''e'' \<or> take 1 s3 = ''E'' then dropWhile isDigit s4 else s4)"
  have "\<exists>C J. parseNumber s = (if ip = [] \<or> C then None else Some (J, s5))"
    unfolding parseNumber_def Let_def s5_def s4_def s3_def s2_def ip_def s1_def
    by (rule exI, rule exI, rule refl)
  then obtain C J where unf: "parseNumber s = (if ip = [] \<or> C then None else Some (J, s5))"
    by (elim exE)
  have ne: "ip \<noteq> []" and r: "r = s5"
    using a unfolding unf by (simp_all split: if_split_asm)
  have "length ip \<le> length s1"
    by (cases s1) (auto simp: ip_def length_takeWhile_le)
  with ne have l2: "length s2 < length s1"
    by (cases ip) (auto simp: s2_def)
  have l1: "length s1 \<le> length s" by (simp add: s1_def)
  have dw: "\<And>P xs. length (dropWhile P xs) \<le> length (xs::string)"
    by (simp add: length_dropWhile_le)
  have "length (dropWhile isDigit (drop 1 s2)) \<le> length (drop 1 s2)" by (rule dw)
  then have l3: "length s3 \<le> length s2" by (auto simp: s3_def)
  have l4: "length s4 \<le> length s3" by (simp add: s4_def)
  have l5: "length s5 \<le> length s4" by (simp add: s5_def dw)
  from r l1 l2 l3 l4 l5 show ?thesis by simp
qed


lemma length_after_char:
  "take 1 (eatSpace r) = [c] \<Longrightarrow> length (eatSpace (drop 1 (eatSpace r))) < length r"
proof -
  assume a: "take 1 (eatSpace r) = [c]"
  then have "eatSpace r \<noteq> []" by auto
  then have "length (drop 1 (eatSpace r)) < length (eatSpace r)" by (cases "eatSpace r") auto
  with length_eatSpace[of r] length_eatSpace[of "drop 1 (eatSpace r)"] show ?thesis by simp
qed

lemma length_drop_char:
  "take 1 (eatSpace r) = [c] \<Longrightarrow> length (drop 1 (eatSpace r)) < length r"
proof -
  assume a: "take 1 (eatSpace r) = [c]"
  then have "eatSpace r \<noteq> []" by auto
  then have "length (drop 1 (eatSpace r)) < length (eatSpace r)" by (cases "eatSpace r") auto
  with length_eatSpace[of r] show ?thesis by simp
qed

lemma parse_fuel:
  "(\<forall>s v r. parseValue n s = Some (v, r) \<longrightarrow>
      length r < length s \<and> parseValue (2 * (length s - length r)) s = Some (v, r))
   \<and> (\<forall>s vs r. parseElements n s = Some (vs, r) \<longrightarrow>
      length r < length s \<and> parseElements (2 * (length s - length r)) s = Some (vs, r))
   \<and> (\<forall>s ms r. parseMembers n s = Some (ms, r) \<longrightarrow>
      length r < length s \<and> parseMembers (2 * (length s - length r)) s = Some (ms, r))"
proof (induction n)
  case 0
  then show ?case by simp
next
  case (Suc n)
  then have vI: "\<And>s v r. parseValue n s = Some (v, r) \<Longrightarrow>
        length r < length s \<and> parseValue (2 * (length s - length r)) s = Some (v, r)"
    and eI: "\<And>s vs r. parseElements n s = Some (vs, r) \<Longrightarrow>
        length r < length s \<and> parseElements (2 * (length s - length r)) s = Some (vs, r)"
    and mI: "\<And>s ms r. parseMembers n s = Some (ms, r) \<Longrightarrow>
        length r < length s \<and> parseMembers (2 * (length s - length r)) s = Some (ms, r)"
    by blast+
  have V: "length r < length s \<and> parseValue (2 * (length s - length r)) s = Some (v, r)"
    if a: "parseValue (Suc n) s = Some (v, r)" for s v r
  proof (cases s)
    case Nil
    with a show ?thesis by simp
  next
    case (Cons c cs)
    note a' = a[unfolded Cons parseValue.simps(3)]
    have fuel1: "length r < length s \<Longrightarrow> \<exists>k. 2 * (length s - length r) = Suc (Suc k)"
      by (cases "2 * (length s - length r)") (auto, arith)
    consider (arr) "c = CHR ''[''" "take 1 (eatSpace cs) \<noteq> '']''"
      | (obj) "c = CHR ''{''" "take 1 (eatSpace cs) \<noteq> ''}''"
      | (leaf) "\<not> (c = CHR ''['' \<and> take 1 (eatSpace cs) \<noteq> '']'')"
               "\<not> (c = CHR ''{'' \<and> take 1 (eatSpace cs) \<noteq> ''}'')"
      by blast
    then show ?thesis
    proof cases
      case arr
      with a' obtain vs where e: "parseElements n (eatSpace cs) = Some (vs, r)" and v: "v = JArray vs"
        by (auto simp del: parseElements.simps)
      from eI[OF e] have l: "length r < length (eatSpace cs)"
        and f: "parseElements (2 * (length (eatSpace cs) - length r)) (eatSpace cs) = Some (vs, r)"
        by simp_all
      from l length_eatSpace[of cs] have ls: "length r < length s" by (simp add: Cons)
      from fuel1[OF ls] obtain k where k: "2 * (length s - length r) = Suc (Suc k)" by blast
      have "2 * (length (eatSpace cs) - length r) \<le> Suc k"
        using k l length_eatSpace[of cs] by (simp add: Cons)
      from parseElements_mono[OF f this] have "parseElements (Suc k) (eatSpace cs) = Some (vs, r)" .
      with arr v have "parseValue (Suc (Suc k)) (c # cs) = Some (v, r)"
        by (simp del: parseElements.simps)
      with ls show ?thesis
        unfolding k by (simp add: Cons)
    next
      case obj
      with a' obtain ms where e: "parseMembers n (eatSpace cs) = Some (ms, r)" and v: "v = JObject ms"
        by (auto simp del: parseMembers.simps)
      from mI[OF e] have l: "length r < length (eatSpace cs)"
        and f: "parseMembers (2 * (length (eatSpace cs) - length r)) (eatSpace cs) = Some (ms, r)"
        by simp_all
      from l length_eatSpace[of cs] have ls: "length r < length s" by (simp add: Cons)
      from fuel1[OF ls] obtain k where k: "2 * (length s - length r) = Suc (Suc k)" by blast
      have "2 * (length (eatSpace cs) - length r) \<le> Suc k"
        using k l length_eatSpace[of cs] by (simp add: Cons)
      from parseMembers_mono[OF f this] have "parseMembers (Suc k) (eatSpace cs) = Some (ms, r)" .
      with obj v have "parseValue (Suc (Suc k)) (c # cs) = Some (v, r)"
        by (simp del: parseMembers.simps)
      with ls show ?thesis
        unfolding k by (simp add: Cons)
    next
      case leaf
      have same: "parseValue (Suc m) (c # cs) = parseValue (Suc n) (c # cs)" for m
        using leaf by (simp del: parseElements.simps parseMembers.simps)
      have ls: "length r < length s"
      proof -
        from a' leaf have
          "(r = drop 3 cs \<and> 3 \<le> length cs) \<or> (r = drop 4 cs \<and> 4 \<le> length cs)
           \<or> (\<exists>str. parseString cs = Some (str, r))
           \<or> r = drop 1 (eatSpace cs)
           \<or> parseNumber (c # cs) = Some (v, r)"
          by (auto simp del: parseElements.simps parseMembers.simps split: if_splits)
        then show ?thesis
          using length_parseString[of cs _ r] length_parseNumber[of "c # cs" v r]
            length_eatSpace[of cs]
          by (auto simp: Cons)
      qed
      from fuel1[OF ls] obtain k where k: "2 * (length s - length r) = Suc (Suc k)" by blast
      from a same[of "Suc k"] have "parseValue (Suc (Suc k)) (c # cs) = Some (v, r)"
        by (simp only: Cons)
      with ls show ?thesis
        unfolding k by (simp add: Cons)
    qed
  qed
  have E: "length r < length s \<and> parseElements (2 * (length s - length r)) s = Some (vs, r)"
    if a: "parseElements (Suc n) s = Some (vs, r)" for s vs r
  proof -
    from a obtain v r1 where p: "parseValue n s = Some (v, r1)"
      by (auto split: option.splits)
    from vI[OF p] have l1: "length r1 < length s"
      and f1: "parseValue (2 * (length s - length r1)) s = Some (v, r1)" by simp_all
    show ?thesis
    proof (cases "take 1 (eatSpace r1) = '']''")
      case True
      with a p have r: "r = drop 1 (eatSpace r1)" and vs: "vs = [v]"
        by (auto simp del: parseValue.simps)
      from length_drop_char[OF True] r have lr: "length r < length r1" by simp
      from l1 lr obtain k where k: "2 * (length s - length r) = Suc k"
        by (cases "2 * (length s - length r)") auto
      have "2 * (length s - length r1) \<le> k" using k l1 lr by arith
      from parseValue_mono[OF f1 this] have "parseValue k s = Some (v, r1)" .
      with True r vs have "parseElements (Suc k) s = Some (vs, r)"
        by (simp del: parseValue.simps)
      moreover from l1 lr have "length r < length s" by simp
      ultimately show ?thesis
        unfolding k by simp
    next
      case False
      with a p have c: "take 1 (eatSpace r1) = '',''"
        by (auto simp del: parseValue.simps split: if_splits)
      from a p False c obtain vs' where
        e: "parseElements n (eatSpace (drop 1 (eatSpace r1))) = Some (vs', r)" and vs: "vs = v # vs'"
        by (auto simp del: parseValue.simps split: if_splits)
      from eI[OF e] have l2: "length r < length (eatSpace (drop 1 (eatSpace r1)))"
        and f2: "parseElements (2 * (length (eatSpace (drop 1 (eatSpace r1))) - length r))
                   (eatSpace (drop 1 (eatSpace r1))) = Some (vs', r)" by simp_all
      from length_after_char[OF c] have l3: "length (eatSpace (drop 1 (eatSpace r1))) < length r1" .
      from l1 l2 l3 obtain k where k: "2 * (length s - length r) = Suc k"
        by (cases "2 * (length s - length r)") auto
      have "2 * (length s - length r1) \<le> k" using k l1 l2 l3 by arith
      from parseValue_mono[OF f1 this] have g1: "parseValue k s = Some (v, r1)" .
      have "2 * (length (eatSpace (drop 1 (eatSpace r1))) - length r) \<le> k"
        using k l1 l2 l3 by arith
      from parseElements_mono[OF f2 this]
      have g2: "parseElements k (eatSpace (drop 1 (eatSpace r1))) = Some (vs', r)" .
      from False c vs g1 g2 have "parseElements (Suc k) s = Some (vs, r)"
        by (simp del: parseValue.simps)
      moreover from l1 l2 l3 have "length r < length s" by simp
      ultimately show ?thesis
        unfolding k by simp
    qed
  qed
  have M: "length r < length s \<and> parseMembers (2 * (length s - length r)) s = Some (ms, r)"
    if a: "parseMembers (Suc n) s = Some (ms, r)" for s ms r
  proof -
    from a have q: "take 1 s = [CHR 0x22]"
      by (auto split: if_splits)
    from a q obtain key r0 where ps: "parseString (drop 1 s) = Some (key, r0)"
      by (auto split: option.splits if_splits)
    from a q ps have col: "take 1 (eatSpace r0) = '':''"
      by (auto split: option.splits if_splits)
    from a q ps col obtain v r1 where
      p: "parseValue n (eatSpace (drop 1 (eatSpace r0))) = Some (v, r1)"
      by (auto split: option.splits if_splits)
    let ?s1 = "eatSpace (drop 1 (eatSpace r0))"
    from length_parseString[OF ps] have l0: "length r0 < length s" by simp
    from length_after_char[OF col] have l0': "length ?s1 < length r0" .
    from vI[OF p] have l1: "length r1 < length ?s1"
      and f1: "parseValue (2 * (length ?s1 - length r1)) ?s1 = Some (v, r1)" by simp_all
    show ?thesis
    proof (cases "take 1 (eatSpace r1) = ''}''")
      case True
      with a q ps col p have r: "r = drop 1 (eatSpace r1)" and ms: "ms = [(key, v)]"
        by (auto simp del: parseValue.simps)
      from length_drop_char[OF True] r have lr: "length r < length r1" by simp
      from l0 l0' l1 lr obtain k where k: "2 * (length s - length r) = Suc k"
        by (cases "2 * (length s - length r)") auto
      have "2 * (length ?s1 - length r1) \<le> k" using k l0 l0' l1 lr by arith
      from parseValue_mono[OF f1 this] have "parseValue k ?s1 = Some (v, r1)" .
      with True r ms q ps col have "parseMembers (Suc k) s = Some (ms, r)"
        by (simp del: parseValue.simps)
      moreover from l0 l0' l1 lr have "length r < length s" by simp
      ultimately show ?thesis
        unfolding k by simp
    next
      case False
      with a q ps col p have c: "take 1 (eatSpace r1) = '',''"
        by (auto simp del: parseValue.simps split: if_splits)
      let ?s2 = "eatSpace (drop 1 (eatSpace r1))"
      from a q ps col p False c obtain ms' where
        e: "parseMembers n ?s2 = Some (ms', r)" and ms: "ms = (key, v) # ms'"
        by (auto simp del: parseValue.simps split: if_splits)
      from mI[OF e] have l2: "length r < length ?s2"
        and f2: "parseMembers (2 * (length ?s2 - length r)) ?s2 = Some (ms', r)" by simp_all
      from length_after_char[OF c] have l3: "length ?s2 < length r1" .
      from l0 l0' l1 l2 l3 obtain k where k: "2 * (length s - length r) = Suc k"
        by (cases "2 * (length s - length r)") auto
      have "2 * (length ?s1 - length r1) \<le> k" using k l0 l0' l1 l2 l3 by arith
      from parseValue_mono[OF f1 this] have g1: "parseValue k ?s1 = Some (v, r1)" .
      have "2 * (length ?s2 - length r) \<le> k" using k l0 l0' l1 l2 l3 by arith
      from parseMembers_mono[OF f2 this] have g2: "parseMembers k ?s2 = Some (ms', r)" .
      from False c ms g1 g2 q ps col have "parseMembers (Suc k) s = Some (ms, r)"
        by (simp del: parseValue.simps)
      moreover from l0 l0' l1 l2 l3 have "length r < length s" by simp
      ultimately show ?thesis
        unfolding k by simp
    qed
  qed
  from V E M show ?case by blast
qed

lemma parseValue_bound:
  assumes "2 * length s + 2 \<le> n"
  shows "parseValue n s = parseValue (2 * length s + 2) s"
proof (cases "parseValue n s")
  case None
  show ?thesis
  proof (cases "parseValue (2 * length s + 2) s")
    case (Some x)
    from parseValue_mono[OF Some assms] None show ?thesis by simp
  next
    case n: None
    with None show ?thesis by simp
  qed
next
  case (Some x)
  obtain v r where x: "x = (v, r)" by (cases x)
  from Some x parse_fuel[of n] have "parseValue (2 * (length s - length r)) s = Some (v, r)"
    by blast
  from parseValue_mono[OF this, of "2 * length s + 2"] Some x show ?thesis
    by simp
qed

lemma fromJson_bound: "2 * length s + 2 \<le> n \<Longrightarrow> parseDocument n s = fromJson s"
proof -
  assume a: "2 * length s + 2 \<le> n"
  have l: "length (eatSpace s) \<le> length s" by (rule length_eatSpace)
  from a l have "parseValue n (eatSpace s) = parseValue (2 * length (eatSpace s) + 2) (eatSpace s)"
    by (intro parseValue_bound) simp
  moreover from l have "parseValue (2 * length s + 2) (eatSpace s) =
      parseValue (2 * length (eatSpace s) + 2) (eatSpace s)"
    by (intro parseValue_bound) simp
  ultimately show ?thesis
    by (simp add: fromJson_def parseDocument_def Let_def)
qed

subsection \<open>Argument assembly\<close>

text \<open>
  C4, as the source has it. The claim is that the four containment checks look at the
  tokens of the caller's \<open>flags\<close> only, never at what \<^verbatim>\<open>start\<close> appended or at the other
  arguments. With an empty \<open>flags\<close> and the thread count \<^verbatim>\<open>--wallet\<close>, the check for
  \<^verbatim>\<open>--wallet\<close> finds the thread count that was appended after \<^verbatim>\<open>--start-mining\<close>, and the
  wallet address is left out, although no token of \<open>flags\<close> is \<^verbatim>\<open>--wallet\<close>.
\<close>

theorem wallet_check_counterexample:
  "''--wallet'' \<notin> set (tokens [])
   \<and> fst (assemble [] ''abc'' ''main'' ''--wallet'' installed) =
       [''--local-api'', ''--data-api'', ''/opt/monero-gui/stats/'', ''--start-mining'', ''--wallet'']
   \<and> arguments_by_tokens (m_p2poolPath installed) [] ''abc'' ''main'' ''--wallet'' =
       [''--local-api'', ''--data-api'', ''/opt/monero-gui/stats/'', ''--start-mining'', ''--wallet'',
        ''--wallet'', ''abc'']"
  by (simp add: assemble_def arguments_by_tokens_def tokens_empty installed_simps Let_def)

text \<open>
  C4, amended: when the thread count is not the string \<^verbatim>\<open>--wallet\<close>, or \<open>flags\<close> has a
  \<^verbatim>\<open>--start-mining\<close> token, every containment check depends on the tokens of \<open>flags\<close>
  alone: the argument list is the one obtained by checking the tokens, and the stats
  directory is recreated exactly when no token is \<^verbatim>\<open>--data-api\<close>.
\<close>

theorem containment_checks_on_tokens:
  assumes "threads \<noteq> ''--wallet'' \<or> ''--start-mining'' \<in> set (tokens flags)"
  shows "fst (assemble flags address chain threads s) =
           arguments_by_tokens (m_p2poolPath s) flags address chain threads
         \<and> snd (assemble flags address chain threads s) =
             (if ''--data-api'' \<in> set (tokens flags) then s
              else s\<lparr>fs := recreateStatsDir (fs s)\<rparr>)"
  using assms by (auto simp: assemble_characterised arguments_by_tokens_def Let_def)

theorem containment_checks_on_tokens_witness:
  "''4'' \<noteq> ''--wallet''
   \<and> fst (assemble ''--wallet xyz  --data-api /custom'' ''abc'' ''main'' ''4'' installed) =
       [''--wallet'', ''xyz'', ''--data-api'', ''/custom'', ''--local-api'', ''--start-mining'', ''4'']
   \<and> snd (assemble ''--wallet xyz  --data-api /custom'' ''abc'' ''main'' ''4'' installed) = installed"
proof -
  have t: "tokens ''--wallet xyz  --data-api /custom'' =
             [''--wallet'', ''xyz'', ''--data-api'', ''/custom'']"
    by code_simp
  have h: "''4'' \<noteq> ''--wallet'' \<or> ''--start-mining'' \<in> set (tokens ''--wallet xyz  --data-api /custom'')"
    by simp
  from containment_checks_on_tokens[OF h, of "''abc''" "''main''" installed] h show ?thesis
    by (simp add: arguments_by_tokens_def t)
qed

text \<open>
  C5, as the source has it. The claim is that \<^verbatim>\<open>start\<close> with \<open>flags = ""\<close>, wallet
  address \<open>abc\<close>, chain \<open>mini\<close> and thread count \<open>4\<close> builds the list \<^verbatim>\<open>--local-api\<close>,
  \<^verbatim>\<open>--data-api <statsDir>\<close>, \<^verbatim>\<open>--start-mining 4\<close>, \<^verbatim>\<open>--mini\<close>, \<^verbatim>\<open>--wallet abc\<close>, and
  that the stats directory exists immediately before the launch. With a regular file
  named \<open>stats\<close> in the install directory the list is as claimed, but
  \<^verbatim>\<open>removeRecursively\<close> leaves the file alone, \<^verbatim>\<open>mkdir\<close> fails, its result is not
  looked at, and the launch starts from a state without a stats directory.
\<close>

theorem stats_blocked_counterexample:
  "isFile (fs blocked) [''stats'']
   \<and> fst (assemble [] ''abc'' ''mini'' ''4'' blocked) =
       [''--local-api'', ''--data-api'', ''/opt/monero-gui/stats/'', ''--start-mining'', ''4'',
        ''--mini'', ''--wallet'', ''abc'']
   \<and> fs (snd (assemble [] ''abc'' ''mini'' ''4'' blocked)) =
       [(''p2pool'', File ''ELF''), (''stats'', File ''notes'')]
   \<and> \<not> isDir (fs (snd (assemble [] ''abc'' ''mini'' ''4'' blocked))) [''stats'']
   \<and> start [] ''abc'' ''mini'' ''4'' True blocked =
       launch [''--local-api'', ''--data-api'', ''/opt/monero-gui/stats/'', ''--start-mining'',
               ''4'', ''--mini'', ''--wallet'', ''abc'']
         True (snd (assemble [] ''abc'' ''mini'' ''4'' blocked))"
  by code_simp

text \<open>
  C5, amended: \<^verbatim>\<open>start\<close> with \<open>flags = ""\<close>, wallet address \<open>abc\<close>, chain \<open>mini\<close> and
  thread count \<open>4\<close> builds the argument list \<^verbatim>\<open>--local-api\<close>, \<^verbatim>\<open>--data-api <statsDir>\<close>,
  \<^verbatim>\<open>--start-mining 4\<close>, \<^verbatim>\<open>--mini\<close>, \<^verbatim>\<open>--wallet abc\<close>, in this order, and launches the
  daemon with it; in the state the launch starts from, the stats directory exists (and
  is empty), unless a regular file of that name stood in its place.
\<close>

theorem start_default_arguments:
  "fst (assemble [] ''abc'' ''mini'' ''4'' s) =
     [''--local-api'', ''--data-api'', m_p2poolPath s @ ''/stats/'', ''--start-mining'', ''4'',
      ''--mini'', ''--wallet'', ''abc'']
   \<and> start [] ''abc'' ''mini'' ''4'' launch_ok s =
       launch [''--local-api'', ''--data-api'', m_p2poolPath s @ ''/stats/'', ''--start-mining'',
               ''4'', ''--mini'', ''--wallet'', ''abc'']
         launch_ok (snd (assemble [] ''abc'' ''mini'' ''4'' s))
   \<and> (\<not> isFile (fs s) [''stats''] \<longrightarrow>
        lookup (fs (snd (assemble [] ''abc'' ''mini'' ''4'' s))) [''stats''] = Some (Dir []))"
  by (simp add: start_unfold assemble_characterised tokens_empty recreateStatsDir_fresh
        del: lookup.simps)

theorem start_default_arguments_witness:
  "fst (assemble [] ''abc'' ''mini'' ''4'' installed) =
     [''--local-api'', ''--data-api'', ''/opt/monero-gui/stats/'', ''--start-mining'', ''4'',
      ''--mini'', ''--wallet'', ''abc'']
   \<and> \<not> isFile (fs installed) [''stats'']
   \<and> lookup (fs (snd (assemble [] ''abc'' ''mini'' ''4'' installed))) [''stats''] = Some (Dir [])"
proof -
  have h: "\<not> isFile (fs installed) [''stats'']"
    by (simp add: installed_simps isFile_def)
  from start_default_arguments[of installed] h show ?thesis
    by (simp add: installed_simps del: lookup.simps)
qed

subsection \<open>Launching\<close>

text \<open>
  C9: when the detached launch fails, \<open>started\<close> is false after \<^verbatim>\<open>start\<close>, \<^verbatim>\<open>start\<close>
  returns false, and the one signal emitted is \<^verbatim>\<open>p2poolStartFailure\<close>; when the launch
  succeeds, \<open>started\<close> is true, \<^verbatim>\<open>start\<close> returns true, and no signal is emitted.
\<close>

theorem start_launch_outcome:
  assumes "start flags address chain threads launch_ok s = (r, s')"
  shows "(\<not> launch_ok \<longrightarrow>
            \<not> started s' \<and> \<not> r \<and> signals s' = signals s @ [p2poolStartFailure])
         \<and> (launch_ok \<longrightarrow> started s' \<and> r \<and> signals s' = signals s)"
  using assms
  by (auto simp: start_unfold launch_def assemble_state emit_def Let_def split: if_splits)

theorem start_launch_outcome_witness:
  "\<not> started (snd (start [] ''abc'' ''mini'' ''4'' False installed))
   \<and> \<not> fst (start [] ''abc'' ''mini'' ''4'' False installed)
   \<and> signals (snd (start [] ''abc'' ''mini'' ''4'' False installed)) = [p2poolStartFailure]
   \<and> started (snd (start [] ''abc'' ''mini'' ''4'' True installed))
   \<and> fst (start [] ''abc'' ''mini'' ''4'' True installed)
   \<and> signals (snd (start [] ''abc'' ''mini'' ''4'' True installed)) = []"
  using start_launch_outcome[of "[]" "''abc''" "''mini''" "''4''" False installed
          "fst (start [] ''abc'' ''mini'' ''4'' False installed)"
          "snd (start [] ''abc'' ''mini'' ''4'' False installed)"]
        start_launch_outcome[of "[]" "''abc''" "''mini''" "''4''" True installed
          "fst (start [] ''abc'' ''mini'' ''4'' True installed)"
          "snd (start [] ''abc'' ''mini'' ''4'' True installed)"]
  by (simp add: installed_simps)



subsection \<open>Polling\<close>

text \<open>
  C8: when the stats file is not there, or \<open>started\<close> is false, \<^verbatim>\<open>getStatus\<close> emits
  \<open>(started, 0)\<close> and does nothing else; so with \<open>started\<close> true and no stats file it
  reports \<open>(true, 0)\<close>.
\<close>

theorem getStatus_without_file_or_daemon:
  assumes "\<not> isFile (fs s) [''stats'', ''local'', ''miner''] \<or> \<not> started s"
  shows "getStatus s = emit (p2poolStatus (started s) 0) s
         \<and> signals (getStatus s) = signals s @ [p2poolStatus (started s) 0]"
  using assms by (auto simp: getStatus_def emit_def)

theorem getStatus_without_file_or_daemon_witness:
  "started (installed\<lparr>started := True\<rparr>)
   \<and> \<not> isFile (fs (installed\<lparr>started := True\<rparr>)) [''stats'', ''local'', ''miner'']
   \<and> signals (getStatus (installed\<lparr>started := True\<rparr>)) = [p2poolStatus True 0]"
proof -
  have h: "\<not> isFile (fs (installed\<lparr>started := True\<rparr>)) [''stats'', ''local'', ''miner'']
           \<or> \<not> started (installed\<lparr>started := True\<rparr>)"
    by (simp add: installed_simps isFile_def)
  have "signals (installed\<lparr>started := True\<rparr>) = []"
    by (simp add: installed_simps)
  with getStatus_without_file_or_daemon[OF h] h show ?thesis
    by (simp add: emit_def)
qed

text \<open>
  C1, at a stats file that holds a blank. The claim is that with \<open>started\<close> true and the
  stats file in place \<^verbatim>\<open>getStatus\<close> parses the whole file, so that the file
  \<^verbatim>\<open>{"current_hashrate": 1234}\<close> is reported as \<open>(true, 1234)\<close>. What reaches the parser
  is the first word of the file, \<^verbatim>\<open>{"current_hashrate":\<close>, which is no JSON document,
  and the report is \<open>(true, 0)\<close>.
\<close>

theorem getStatus_spaced_json:
  \<open>started (polling ''{"current_hashrate": 1234}'')
   \<and> isFile (fs (polling ''{"current_hashrate": 1234}'')) [''stats'', ''local'', ''miner'']
   \<and> readWord ''{"current_hashrate": 1234}'' = ''{"current_hashrate":''
   \<and> fromJson ''{"current_hashrate":'' = None
   \<and> fromJson ''{"current_hashrate": 1234}'' = Some (JObject [(''current_hashrate'', JNumber 1234 0)])
   \<and> getStatus (polling ''{"current_hashrate": 1234}'') =
       emit (p2poolStatus True 0) (polling ''{"current_hashrate": 1234}'')\<close>
  by code_simp

theorem getStatus_spaced_json_witness:
  \<open>signals (getStatus (polling ''{"current_hashrate": 1234}'')) = [p2poolStatus True 0]\<close>
  using getStatus_spaced_json
  by (simp add: emit_def polling_def P2PoolManager_def)

text \<open>The same file written without the blank is reported as the claim says.\<close>

lemma getStatus_compact_json:
  \<open>getStatus (polling ''{"current_hashrate":1234}'') =
     emit (p2poolStatus True 1234) (polling ''{"current_hashrate":1234}'')\<close>
  by code_simp

text \<open>
  What \<open>toInt\<close> makes of some numerals: a fraction that is not whole, an exponent, two
  numerals that no double holds and whose nearest double is \<open>1\<close>, and the ends of the
  range of \<^verbatim>\<open>int\<close>.
\<close>

lemma toInt_nearest_double:
  \<open>map (\<lambda>t. toInt (json_value (json_object (fromJson (''{"current_hashrate":'' @ t @ ''}'')))
                 ''current_hashrate''))
     [''1234'', ''1234.5'', ''12340e-1'', ''1.0000000000000000000001'', ''0.99999999999999999999'',
      ''2147483647'', ''2147483648'', ''-2147483648'']
   = [1234, 0, 1234, 1, 1, 2147483647, 0, - 2147483648]\<close>
  by code_simp

subsection \<open>The stats directory over a sequence of calls\<close>

lemma isDir_single: "isDir d [x] = (\<exists>sub. map_of d x = Some (Dir sub))"
  by (auto simp: isDir_def lookup_single simp del: lookup.simps split: option.splits node.splits)

lemma isFile_single: "isFile d [x] = (\<exists>c. map_of d x = Some (File c))"
  by (auto simp: isFile_def lookup_single simp del: lookup.simps split: option.splits node.splits)

lemma consistent_exit: "consistent s \<Longrightarrow> consistent (exit s)"
  by (auto simp: consistent_def exit_def isDir_single isFile_single removeRecursively_def
        delete_conv' split: option.splits node.splits)

lemma consistent_start:
  assumes "consistent s" "''--data-api'' \<notin> set (tokens flags)"
  shows "consistent (snd (start flags address chain threads True s))"
proof -
  from assms(1) have f: "\<not> isFile (fs s) [''stats'']"
    by (simp add: consistent_def)
  have "lookup (fs (snd (start flags address chain threads True s))) [''stats''] = Some (Dir [])"
    using assms(2) recreateStatsDir_fresh[OF f]
    by (simp add: start_unfold launch_def assemble_state Let_def del: lookup.simps)
  moreover have "started (snd (start flags address chain threads True s))"
    by (simp add: start_unfold launch_def assemble_state Let_def)
  ultimately show ?thesis
    by (simp add: consistent_def isDir_def isFile_def del: lookup.simps)
qed

lemma consistent_do_call: "consistent s \<Longrightarrow> plain_call c \<Longrightarrow> consistent (do_call c s)"
  by (cases c) (auto simp: consistent_start consistent_exit)

lemma consistent_run_calls:
  "consistent s \<Longrightarrow> \<forall>c \<in> set cs. plain_call c \<Longrightarrow> consistent (run_calls cs s)"
  by (induction cs arbitrary: s) (auto simp: consistent_do_call)

text \<open>
  C2, as the source has it. The claim is that after any sequence of calls the stats
  directory exists exactly when \<open>started\<close> is true. A \<^verbatim>\<open>start\<close> whose flags hold
  \<^verbatim>\<open>--data-api\<close> sets \<open>started\<close> and creates no directory; a \<^verbatim>\<open>start\<close> whose launch
  fails creates the directory and leaves \<open>started\<close> false, and the \<^verbatim>\<open>exit\<close> after it
  removes nothing; and a directory left on the disk by an earlier run is there before
  the first call.
\<close>

theorem stats_dir_iff_started_counterexample:
  "started (run_calls [Start ''--data-api /custom'' ''abc'' ''main'' ''4'' True] installed)
   \<and> \<not> isDir (fs (run_calls [Start ''--data-api /custom'' ''abc'' ''main'' ''4'' True] installed))
         [''stats'']
   \<and> \<not> started (run_calls [Start [] ''abc'' ''main'' ''4'' False, Exit] installed)
   \<and> isDir (fs (run_calls [Start [] ''abc'' ''main'' ''4'' False, Exit] installed)) [''stats'']
   \<and> \<not> started (run_calls [] (P2PoolManager Linux ''/opt/monero-gui'' [(''stats'', Dir [])]))
   \<and> isDir (fs (run_calls [] (P2PoolManager Linux ''/opt/monero-gui'' [(''stats'', Dir [])])))
         [''stats'']"
  by code_simp

lemma exit_removes:
  "started t \<Longrightarrow> \<not> started (exit t) \<and> \<not> isDir (fs (exit t)) [''stats'']"
  by (auto simp: exit_def isDir_single removeRecursively_def delete_conv'
        split: option.splits node.splits)

lemma start_creates:
  "''--data-api'' \<notin> set (tokens flags) \<Longrightarrow> \<not> isFile (fs t) [''stats''] \<Longrightarrow>
   started (snd (start flags address chain threads True t))
   \<and> lookup (fs (snd (start flags address chain threads True t))) [''stats''] = Some (Dir [])"
  by (simp add: start_unfold launch_def assemble_state Let_def recreateStatsDir_fresh
        del: lookup.simps)

text \<open>
  C2, amended: from any state in which the stats directory exists exactly when
  \<open>started\<close> is true and no regular file named \<open>stats\<close> stands in its place (a state
  with \<open>started\<close> false and no entry named \<open>stats\<close> is one), after any sequence of
  calls to \<^verbatim>\<open>exit\<close> and of calls to \<^verbatim>\<open>start\<close> whose flags hold no \<^verbatim>\<open>--data-api\<close> token
  and whose launch succeeds, the stats directory exists if and only if \<open>started\<close> is
  true. \<^verbatim>\<open>exit\<close>, called with \<open>started\<close> true, clears \<open>started\<close> and removes the
  directory with whatever it holds; such a \<^verbatim>\<open>start\<close>, with no regular file named
  \<open>stats\<close> in the way, sets \<open>started\<close> and leaves an empty stats directory, whatever
  the directory held before.
\<close>

theorem stats_dir_iff_started:
  assumes "consistent s" and "\<forall>c \<in> set cs. plain_call c"
  shows "(started (run_calls cs s) \<longleftrightarrow> isDir (fs (run_calls cs s)) [''stats''])
       \<and> (started t \<longrightarrow> \<not> started (exit t) \<and> \<not> isDir (fs (exit t)) [''stats''])
       \<and> (''--data-api'' \<notin> set (tokens flags) \<and> \<not> isFile (fs t) [''stats''] \<longrightarrow>
            started (snd (start flags address chain threads True t))
            \<and> lookup (fs (snd (start flags address chain threads True t))) [''stats'']
                = Some (Dir []))"
proof -
  from consistent_run_calls[OF assms] have "consistent (run_calls cs s)" .
  then have "started (run_calls cs s) \<longleftrightarrow> isDir (fs (run_calls cs s)) [''stats'']"
    by (simp add: consistent_def)
  with exit_removes[of t] start_creates[of flags t address chain threads] show ?thesis
    by blast
qed

text \<open>The witness starts with the daemon running and a stats file in the directory.\<close>

theorem stats_dir_iff_started_witness:
  "consistent (polling ''{}'')
   \<and> lookup (fs (polling ''{}'')) [''stats'', ''local'', ''miner''] = Some (File ''{}'')
   \<and> \<not> started (run_calls [Exit] (polling ''{}''))
   \<and> \<not> isDir (fs (run_calls [Exit] (polling ''{}''))) [''stats'']
   \<and> started (run_calls [Exit, Start ''--loglevel 1'' ''abc'' ''main'' ''2'' True] (polling ''{}''))
   \<and> isDir (fs (run_calls [Exit, Start ''--loglevel 1'' ''abc'' ''main'' ''2'' True] (polling ''{}'')))
         [''stats'']
   \<and> \<not> isDir (fs (exit (polling ''{}''))) [''stats'']
   \<and> lookup (fs (snd (start [] ''abc'' ''mini'' ''4'' True (polling ''{}'')))) [''stats'']
       = Some (Dir [])"
proof -
  have c: "consistent (polling ''{}'')"
    by (simp add: consistent_def polling_def P2PoolManager_def isDir_def isFile_def)
  have l: "lookup (fs (polling ''{}'')) [''stats'', ''local'', ''miner''] = Some (File ''{}'')"
    by (simp add: polling_def P2PoolManager_def)
  have st: "started (polling ''{}'')" and nf: "\<not> isFile (fs (polling ''{}'')) [''stats'']"
    by (simp_all add: polling_def P2PoolManager_def isFile_def)
  have t: "tokens ''--loglevel 1'' = [''--loglevel'', ''1'']"
    by code_simp
  have p1: "\<forall>c \<in> set [Exit]. plain_call c"
    by simp
  have p2: "\<forall>c \<in> set [Exit, Start ''--loglevel 1'' ''abc'' ''main'' ''2'' True]. plain_call c"
    by (simp add: t)
  have s1: "\<not> started (run_calls [Exit] (polling ''{}''))"
    by (simp add: exit_def)
  have s2: "started (run_calls [Exit, Start ''--loglevel 1'' ''abc'' ''main'' ''2'' True]
                      (polling ''{}''))"
    by (simp add: start_unfold launch_def Let_def)
  from stats_dir_iff_started[OF c p1, of "polling ''{}''" "[]" "''abc''" "''mini''" "''4''"]
    stats_dir_iff_started[OF c p2, of "polling ''{}''" "[]" "''abc''" "''mini''" "''4''"]
    c l st nf s1 s2
  show ?thesis
    by (simp add: tokens_empty del: lookup.simps)
qed

subsection \<open>Two threads\<close>

text \<open>Run alone, the steps of a call do what the call does.\<close>

lemma start_steps_alone:
  "run [False, False, False, False, False, False]
     (start_steps flags address chain threads launch_ok s, b, s, False) =
   Some ([], b, snd (start flags address chain threads launch_ok s), False)"
  by (simp add: start_steps_def start_unfold launch_def assemble_state emit_def Let_def)

lemma exit_steps_alone:
  "run (if started s then [True, True, True, True] else [True]) (a, exit_steps, s, held) =
   Some (a, [], exit s, held)"
  by (simp add: exit_steps_def exit_def)

text \<open>
  C3, on a schedule of two threads. The claim is that one lock excludes \<^verbatim>\<open>start\<close> and
  \<^verbatim>\<open>exit\<close> from each other, so that \<open>started\<close> and the stats directory always agree.
  The first thread calls \<^verbatim>\<open>start\<close> and the second \<^verbatim>\<open>exit\<close>, while the daemon runs and
  the directory exists. \<^verbatim>\<open>exit\<close> passes its test, kills the daemon and clears
  \<open>started\<close>; \<^verbatim>\<open>start\<close> recreates the directory, takes the mutex and launches. With the
  mutex held by \<^verbatim>\<open>start\<close>, \<^verbatim>\<open>exit\<close> still has its last step to take, and takes it:
  when both calls have returned, \<open>started\<close> is true and the stats directory is gone.
\<close>

theorem start_exit_interleaved:
  "started running \<and> isDir (fs running) [''stats'']
   \<and> (case run [True, True, True, False, False, False, False]
              (start_steps [] ''abc'' ''mini'' ''4'' True running, exit_steps, running, False) of
         None \<Rightarrow> False
       | Some (a, b, s, held) \<Rightarrow>
           a = [EmitIfNotStarted, Release] \<and> b = [RemoveStats] \<and> held \<and> started s
           \<and> isDir (fs s) [''stats''])
   \<and> (case run [True, True, True, False, False, False, False, True, False, False]
              (start_steps [] ''abc'' ''mini'' ''4'' True running, exit_steps, running, False) of
         None \<Rightarrow> False
       | Some (a, b, s, held) \<Rightarrow>
           a = [] \<and> b = [] \<and> \<not> held \<and> started s \<and> \<not> isDir (fs s) [''stats''])"
  by code_simp

theorem start_exit_interleaved_witness:
  "map_option (\<lambda>(a, b, s, held). (started s, isDir (fs s) [''stats'']))
     (run [True, True, True, False, False, False, False, True, False, False]
        (start_steps [] ''abc'' ''mini'' ''4'' True running, exit_steps, running, False))
   = Some (True, False)"
  using start_exit_interleaved
  by (auto split: option.splits)

subsection \<open>Fetching the release\<close>

lemma follow_other:
  "\<forall>h \<in> set hs. fst h \<noteq> ''Location'' \<Longrightarrow> follow lib ua hs rc = rc"
  by (induction hs arbitrary: rc) (auto split: prod.splits)

lemma follow_append:
  "follow lib ua (hs @ hs') rc = follow lib ua hs' (follow lib ua hs rc)"
proof (induction hs arbitrary: rc)
  case Nil
  then show ?case by simp
next
  case (Cons h hs)
  obtain name v where h: "h = (name, v)" by (cases h)
  obtain r c where rc: "rc = (r, c)" by (cases rc)
  show ?case by (simp add: h rc Cons.IH)
qed

lemma filter_single_split:
  "filter P xs = [x] \<Longrightarrow>
   \<exists>ys zs. xs = ys @ x # zs \<and> (\<forall>y \<in> set ys. \<not> P y) \<and> (\<forall>z \<in> set zs. \<not> P z)"
proof (induction xs)
  case Nil
  then show ?case by simp
next
  case (Cons a xs)
  show ?case
  proof (cases "P a")
    case True
    with Cons.prems have "a = x" "filter P xs = []" by simp_all
    then have "a # xs = [] @ x # xs \<and> (\<forall>y \<in> set []. \<not> P y) \<and> (\<forall>z \<in> set xs. \<not> P z)"
      by (auto simp: filter_empty_conv)
    then show ?thesis by blast
  next
    case False
    with Cons.prems have "filter P xs = [x]" by simp
    from Cons.IH[OF this] obtain ys zs where
      "xs = ys @ x # zs" "\<forall>y \<in> set ys. \<not> P y" "\<forall>z \<in> set zs. \<not> P z" by blast
    with False have "a # xs = (a # ys) @ x # zs \<and> (\<forall>y \<in> set (a # ys). \<not> P y)
        \<and> (\<forall>z \<in> set zs. \<not> P z)"
      by simp
    then show ?thesis by blast
  qed
qed

lemma follow_single:
  assumes "filter (\<lambda>h. fst h = ''Location'') hs = [(name, v)]"
  shows "follow lib ua hs (r, c) =
           invoke_get (url_path lib v @ ''?'' @ url_query lib v) ua
             (c\<lparr>server := url_host lib v\<rparr>)"
proof -
  from filter_single_split[OF assms] obtain ys zs where
    hs: "hs = ys @ (name, v) # zs"
    and ys: "\<forall>y \<in> set ys. fst y \<noteq> ''Location''"
    and zs: "\<forall>z \<in> set zs. fst z \<noteq> ''Location''" by blast
  have "(name, v) \<in> set (filter (\<lambda>h. fst h = ''Location'') hs)"
    by (simp add: assms)
  then have n: "name = ''Location''" by simp
  show ?thesis
    by (simp add: hs follow_append follow_other[OF ys] follow_other[OF zs] n)
qed

text \<open>
  C6, as the source has it. The claim is that every first response with status 302 is
  followed by exactly one further GET. The source sends one GET for each header field
  named \<^verbatim>\<open>Location\<close>: none when the response has no such field (the body of the 302
  response is then the one that is digested), two when it has two.
\<close>

theorem redirect_counterexample:
  "m_response_code bare_redirect = 302
   \<and> download example_library [Some bare_redirect, Some (answer ''abc'')] installed =
       (emit (p2poolDownloadFailure HashVerificationFailed) installed,
        [\<lparr>host = ''github.com'',
          uri = ''/SChernykh/p2pool/releases/download/v4.9/p2pool-v4.9-linux-x64.tar.gz'',
          user_agent = ''Mozilla/5.0''\<rparr>])
   \<and> m_response_code double_redirect = 302
   \<and> snd (download example_library [Some double_redirect, None, Some (answer ''abc'')] installed) =
        [\<lparr>host = ''github.com'',
          uri = ''/SChernykh/p2pool/releases/download/v4.9/p2pool-v4.9-linux-x64.tar.gz'',
          user_agent = ''Mozilla/5.0''\<rparr>,
         \<lparr>host = ''mirror-a.example.org'', uri = ''/p2pool?x=1'', user_agent = ''Mozilla/5.0''\<rparr>,
         \<lparr>host = ''mirror-b.example.org'', uri = ''/p2pool?x=2'', user_agent = ''Mozilla/5.0''\<rparr>]"
  by code_simp

text \<open>
  C6, amended: when the first response has status 302 and exactly one header field named
  \<^verbatim>\<open>Location\<close>, the fetcher re-targets host, path and query to that field's value and
  sends exactly one further GET, whatever the second response is (no redirect is followed
  from it: its body goes to the digest check); if the second GET fails at the transport
  level, the attempt fails with \<^verbatim>\<open>ConnectionIssue\<close>.
\<close>

theorem redirect_followed_once:
  assumes "m_response_code r1 = 302"
    and "filter (\<lambda>h. fst h = ''Location'') (m_etc_fields r1) = [(name, v)]"
  shows "snd (download lib (Some r1 # rest) s) =
           [first_get lib (release_of (os s)), redirected_get lib v]
         \<and> (next_reply rest = None \<longrightarrow>
               fst (download lib (Some r1 # rest) s) =
                 emit (p2poolDownloadFailure ConnectionIssue) s)
         \<and> (\<forall>r2. next_reply rest = Some r2 \<longrightarrow>
               fst (download lib (Some r1 # rest) s) =
                 (if sha256_hex lib (m_body r2) \<noteq> validHash (release_of (os s))
                  then emit (p2poolDownloadFailure HashVerificationFailed) s
                  else install lib (release_of (os s)) (m_body r2) s))"
  using assms(1)
  by (auto simp: download_def fetch_def has_code_def Let_def follow_single[OF assms(2)]
        invoke_get_def next_reply_def first_get_def redirected_get_def
        split: option.splits list.splits)

theorem redirect_followed_once_witness:
  "m_response_code redirect = 302
   \<and> filter (\<lambda>h. fst h = ''Location'') (m_etc_fields redirect) =
       [(''Location'', ''https://objects.githubusercontent.com/release/42?sig=a%20b'')]
   \<and> next_reply [None, Some (answer ''abc'')] = None
   \<and> snd (download example_library [Some redirect, None, Some (answer ''abc'')] installed) =
       [\<lparr>host = ''github.com'',
         uri = ''/SChernykh/p2pool/releases/download/v4.9/p2pool-v4.9-linux-x64.tar.gz'',
         user_agent = ''Mozilla/5.0''\<rparr>,
        \<lparr>host = ''objects.githubusercontent.com'', uri = ''/release/42?sig=a%20b'',
         user_agent = ''Mozilla/5.0''\<rparr>]
   \<and> signals (fst (download example_library [Some redirect, None, Some (answer ''abc'')]
                     installed)) =
       [p2poolDownloadFailure ConnectionIssue]"
proof -
  have c: "m_response_code redirect = 302"
    by (simp add: redirect_def)
  have l: "filter (\<lambda>h. fst h = ''Location'') (m_etc_fields redirect) =
             [(''Location'', ''https://objects.githubusercontent.com/release/42?sig=a%20b'')]"
    by (simp add: redirect_def)
  have n: "next_reply [None, Some (answer ''abc'')] = None"
    by (simp add: next_reply_def)
  have g1: "first_get example_library (release_of (os installed)) =
      \<lparr>host = ''github.com'',
       uri = ''/SChernykh/p2pool/releases/download/v4.9/p2pool-v4.9-linux-x64.tar.gz'',
       user_agent = ''Mozilla/5.0''\<rparr>"
    by code_simp
  have g2: "redirected_get example_library
              ''https://objects.githubusercontent.com/release/42?sig=a%20b'' =
      \<lparr>host = ''objects.githubusercontent.com'', uri = ''/release/42?sig=a%20b'',
       user_agent = ''Mozilla/5.0''\<rparr>"
    by code_simp
  from redirect_followed_once[OF c l, of example_library "[None, Some (answer ''abc'')]" installed]
    c l n g1 g2
  show ?thesis
    by (simp add: emit_def installed_simps)
qed

text \<open>
  C7: when the body of the response an attempt ends up with has a digest other than the
  expected one, \<^verbatim>\<open>download\<close> emits \<^verbatim>\<open>HashVerificationFailed\<close> and nothing else, and the
  install directory is as it was: no archive is written and nothing is unpacked.
\<close>

theorem hash_mismatch_fails:
  assumes "fetch lib (release_of (os s)) net = (False, Some resp, c)"
    and "sha256_hex lib (m_body resp) \<noteq> validHash (release_of (os s))"
  shows "download lib net s = (emit (p2poolDownloadFailure HashVerificationFailed) s, sent c)
         \<and> signals (fst (download lib net s)) =
             signals s @ [p2poolDownloadFailure HashVerificationFailed]
         \<and> fs (fst (download lib net s)) = fs s"
  using assms by (simp add: download_def Let_def emit_def)

theorem hash_mismatch_fails_witness:
  "fetch example_library (release_of (os installed)) [Some (answer ''abc'')] =
     (False, Some (answer ''abc''),
      \<lparr>server = ''github.com'', replies = [],
       sent = [\<lparr>host = ''github.com'',
                uri = ''/SChernykh/p2pool/releases/download/v4.9/p2pool-v4.9-linux-x64.tar.gz'',
                user_agent = ''Mozilla/5.0''\<rparr>]\<rparr>)
   \<and> sha256_hex example_library (m_body (answer ''abc'')) \<noteq> validHash (release_of (os installed))
   \<and> signals (fst (download example_library [Some (answer ''abc'')] installed)) =
       [p2poolDownloadFailure HashVerificationFailed]
   \<and> fs (fst (download example_library [Some (answer ''abc'')] installed)) =
       [(''p2pool'', File ''ELF'')]"
proof -
  have f: "fetch example_library (release_of (os installed)) [Some (answer ''abc'')] =
     (False, Some (answer ''abc''),
      \<lparr>server = ''github.com'', replies = [],
       sent = [\<lparr>host = ''github.com'',
                uri = ''/SChernykh/p2pool/releases/download/v4.9/p2pool-v4.9-linux-x64.tar.gz'',
                user_agent = ''Mozilla/5.0''\<rparr>]\<rparr>)"
    by code_simp
  have d: "sha256_hex example_library (m_body (answer ''abc''))
             \<noteq> validHash (release_of (os installed))"
    by code_simp
  from hash_mismatch_fails[OF f d] f d show ?thesis
    by (simp add: installed_simps emit_def)
qed

end
